theory Spec2Isabelle
  imports Main
begin

section \<open>Values received from clients\<close>

text \<open>
  Event arguments arrive as JSON values and the handlers of \<^verbatim>\<open>src/index.ts\<close> inspect them
  with \<^verbatim>\<open>typeof\<close>, truthiness and \<^verbatim>\<open>===\<close>. Numbers are only compared for equality and
  tested for being zero, so they are modelled as integers (the spec's \<^verbatim>\<open>clientId\<close> is a
  signed integer); \<^verbatim>\<open>JUndefined\<close> stands for a missing argument or property.
\<close>

datatype jsval =
    JUndefined
  | JNull
  | JBool bool
  | JNum (num_of: int)
  | JStr (str_of: string)
  | JArr "jsval list"
  | JObj "(string \<times> jsval) list"

fun typeof :: "jsval \<Rightarrow> string" where
  "typeof JUndefined = ''undefined''"
| "typeof JNull = ''object''"
| "typeof (JBool b) = ''boolean''"
| "typeof (JNum n) = ''number''"
| "typeof (JStr s) = ''string''"
| "typeof (JArr xs) = ''object''"
| "typeof (JObj fs) = ''object''"

fun truthy :: "jsval \<Rightarrow> bool" where
  "truthy JUndefined = False"
| "truthy JNull = False"
| "truthy (JBool b) = b"
| "truthy (JNum n) = (n \<noteq> 0)"
| "truthy (JStr s) = (s \<noteq> [])"
| "truthy (JArr xs) = True"
| "truthy (JObj fs) = True"

datatype exn = TypeError

text \<open>
  Reading the property \<^verbatim>\<open>data\<close> or \<^verbatim>\<open>to\<close> of a value: an own property of an object, undefined on
  an object without it and on an array, a TypeError on \<^verbatim>\<open>null\<close> and \<^verbatim>\<open>undefined\<close>.
\<close>

fun get_prop :: "jsval \<Rightarrow> string \<Rightarrow> exn + jsval" where
  "get_prop (JObj fs) k = Inr (case map_of fs k of None \<Rightarrow> JUndefined | Some v \<Rightarrow> v)"
| "get_prop JNull k = Inl TypeError"
| "get_prop JUndefined k = Inl TypeError"
| "get_prop v k = Inr JUndefined"

section \<open>Version gate (index.ts, lines 10 and 71-87)\<close>

definition supportedVersions :: "string list" where
  "supportedVersions = [''1.0.0'']"

definition is_digit :: "char \<Rightarrow> bool" where
  "is_digit c = (c \<in> set ''0123456789'')"

definition is_word :: "char \<Rightarrow> bool" where
  "is_word c = (c \<in> set ''abcdefghijklmnopqrstuvwxyzABCDEFGHIJKLMNOPQRSTUVWXYZ0123456789_'')"

fun strip_prefix :: "string \<Rightarrow> string \<Rightarrow> string option" where
  "strip_prefix [] s = Some s"
| "strip_prefix (p # ps) [] = None"
| "strip_prefix (p # ps) (c # cs) = (if p = c then strip_prefix ps cs else None)"

text \<open>
  One piece of the pattern: a non-empty run of characters of a class (\<^verbatim>\<open>\d+\<close>, \<^verbatim>\<open>\w+\<close>)
  followed by a literal text. The result is the run and what follows the literal. In the
  pattern every run is followed by a character outside its class, so the longest run is
  the only candidate.
\<close>

definition run_then :: "(char \<Rightarrow> bool) \<Rightarrow> string \<Rightarrow> string \<Rightarrow> (string \<times> string) option" where
  "run_then cls lit s =
     (if takeWhile cls s = [] then None
      else case strip_prefix lit (dropWhile cls s) of
             None \<Rightarrow> None
           | Some r \<Rightarrow> Some (takeWhile cls s, r))"

text \<open>
  The regular expression \<^verbatim>\<open>/^PenguinChat\/(\d+\.\d+\.\d+) \((\w+)\)$/\<close>, matched from left to
  right; the result is the pair of its two groups.
\<close>

definition regex_exec :: "string \<Rightarrow> (string \<times> string) option" where
  "regex_exec ua =
     (case strip_prefix ''PenguinChat/'' ua of None \<Rightarrow> None | Some r1 \<Rightarrow>
      case run_then is_digit ''.'' r1 of None \<Rightarrow> None | Some (a, r2) \<Rightarrow>
      case run_then is_digit ''.'' r2 of None \<Rightarrow> None | Some (b, r3) \<Rightarrow>
      case run_then is_digit '' ('' r3 of None \<Rightarrow> None | Some (c, r4) \<Rightarrow>
      case run_then is_word '')'' r4 of None \<Rightarrow> None | Some (w, r5) \<Rightarrow>
      if r5 = [] then Some (a @ ''.'' @ b @ ''.'' @ c, w) else None)"

text \<open>\<^verbatim>\<open>Array.prototype.join()\<close> with its default separator, a comma.\<close>

fun array_join :: "string list \<Rightarrow> string" where
  "array_join [] = []"
| "array_join [x] = x"
| "array_join (x # y # ys) = x @ '','' @ array_join (y # ys)"

datatype handshake = Accept | Reject jsval

definition error_data :: jsval where
  "error_data = JObj [(''message'', JStr
     (''The voice server does not support your version of PenguinChat.'' @ [CHR 0x0A] @
      ''Supported versions: '' @ array_join supportedVersions))]"

text \<open>
  The middleware itself. The header is absent (\<^verbatim>\<open>undefined\<close>) or a string; the regular
  expression converts what it is given to a string, an absent header to \<^verbatim>\<open>undefined\<close>.
  The \<^verbatim>\<open>data\<close> of the error is what a rejected client receives.
\<close>

definition header_text :: "string option \<Rightarrow> string" where
  "header_text userAgent = (case userAgent of None \<Rightarrow> ''undefined'' | Some s \<Rightarrow> s)"

definition io_use :: "string option \<Rightarrow> handshake" where
  "io_use userAgent =
     (let matches = regex_exec (header_text userAgent) in
      case matches of
        None \<Rightarrow> Reject error_data
      | Some (version, platform) \<Rightarrow>
          if version \<in> set supportedVersions then Accept else Reject error_data)"

section \<open>Server state\<close>

record client =
  clientId :: int

datatype msg =
    MJoin string client
  | MSetClients "(string \<times> client option) list"
  | MSetClient string client
  | MSignal jsval string

text \<open>
  The state the handlers share: the \<^verbatim>\<open>clients\<close> map and \<^verbatim>\<open>connectionCount\<close> of the module, the
  variable \<^verbatim>\<open>roomId\<close> of each connection's closure, and the transport's own state as the
  handlers use it: the connected sockets, the rooms of the adapter (a room's member ids in
  insertion order; a room without members does not exist) and the packets delivered, each
  with its recipient.
\<close>

record server =
  clients :: "string \<rightharpoonup> client"
  connectionCount :: int
  roomId :: "string \<Rightarrow> string option"
  connected :: "string set"
  rooms :: "string \<Rightarrow> string list"
  outbox :: "(string \<times> msg) list"

definition init :: server where
  "init = \<lparr> clients = Map.empty, connectionCount = 0, roomId = (\<lambda>_. None),
            connected = {}, rooms = (\<lambda>_. []), outbox = [] \<rparr>"

definition getRoomId :: "string \<Rightarrow> string \<Rightarrow> string \<Rightarrow> string" where
  "getRoomId hostName server room = hostName @ ''-'' @ server @ ''-'' @ room"

section \<open>Transport primitives (socket.io 2.x)\<close>

text \<open>
  The handlers call the socket.io library, which is not part of \<^verbatim>\<open>index.ts\<close>. Its calls are
  modelled by what they do to the state above: \<^verbatim>\<open>socket.join\<close> and \<^verbatim>\<open>socket.leave\<close> change the
  adapter's rooms at once; \<^verbatim>\<open>to(name)\<close> addresses the room of that name, for \<^verbatim>\<open>socket.to\<close> as
  for \<^verbatim>\<open>io.to\<close>; every socket is a member of the room named by its own id from its
  connection on, which is how a single socket is addressed.
\<close>

definition socket_join :: "string \<Rightarrow> string \<Rightarrow> server \<Rightarrow> server" where
  "socket_join sid r st =
     (if sid \<in> set (rooms st r) then st
      else st\<lparr>rooms := (rooms st)(r := rooms st r @ [sid])\<rparr>)"

definition socket_leave :: "string \<Rightarrow> string \<Rightarrow> server \<Rightarrow> server" where
  "socket_leave sid r st = st\<lparr>rooms := (rooms st)(r := removeAll sid (rooms st r))\<rparr>"

definition deliver :: "string list \<Rightarrow> msg \<Rightarrow> server \<Rightarrow> server" where
  "deliver recipients m st = st\<lparr>outbox := outbox st @ map (\<lambda>r. (r, m)) recipients\<rparr>"

text \<open>\<^verbatim>\<open>socket.emit\<close>: to the socket itself.\<close>

definition socket_emit :: "string \<Rightarrow> msg \<Rightarrow> server \<Rightarrow> server" where
  "socket_emit sid m st = deliver [sid] m st"

text \<open>
  \<^verbatim>\<open>socket.to(room).broadcast.emit\<close>: to the members of the room other than the sender;
  \<^verbatim>\<open>null\<close> names no room.
\<close>

definition socket_to_broadcast_emit :: "string \<Rightarrow> string option \<Rightarrow> msg \<Rightarrow> server \<Rightarrow> server" where
  "socket_to_broadcast_emit sid room m st =
     (case room of
        None \<Rightarrow> st
      | Some r \<Rightarrow> deliver (filter (\<lambda>s. s \<noteq> sid) (rooms st r)) m st)"

text \<open>
  \<^verbatim>\<open>io.to(room).emit\<close>: to every member of the room. A connected socket is reached by its
  id because it joins the room named by its own id when it connects.
\<close>

definition io_to_emit :: "string \<Rightarrow> msg \<Rightarrow> server \<Rightarrow> server" where
  "io_to_emit room m st = deliver (rooms st room) m st"

section \<open>Connection lifecycle (index.ts, lines 89-92 and 162-166)\<close>

text \<open>The \<^verbatim>\<open>disconnect\<close> handler of a connection.\<close>

definition on_disconnect :: "string \<Rightarrow> server \<Rightarrow> server" where
  "on_disconnect sid st =
     st\<lparr>clients := (clients st)(sid := None), connectionCount := connectionCount st - 1\<rparr>"

text \<open>
  Closing a socket, by \<^verbatim>\<open>socket.disconnect()\<close> or because the client went away: nothing on a
  socket that is closed already; otherwise the socket leaves all its rooms, is no longer
  connected, and its \<^verbatim>\<open>disconnect\<close> event fires, which runs the handler above before
  \<^verbatim>\<open>socket.disconnect()\<close> returns.
\<close>

definition socket_disconnect :: "string \<Rightarrow> server \<Rightarrow> server" where
  "socket_disconnect sid st =
     (if sid \<notin> connected st then st
      else on_disconnect sid
             (st\<lparr>connected := connected st - {sid},
                 rooms := (\<lambda>r. removeAll sid (rooms st r))\<rparr>))"

text \<open>The body of the \<^verbatim>\<open>connection\<close> callback before the handlers are registered.\<close>

definition on_connection :: "string \<Rightarrow> server \<Rightarrow> server" where
  "on_connection sid st =
     st\<lparr>connectionCount := connectionCount st + 1, roomId := (roomId st)(sid := None)\<rparr>"

text \<open>
  An accepted handshake: the socket is connected, joins the room named by its own id, and
  the \<^verbatim>\<open>connection\<close> callback runs.
\<close>

definition accept :: "string \<Rightarrow> server \<Rightarrow> server" where
  "accept sid st = on_connection sid (socket_join sid sid (st\<lparr>connected := insert sid (connected st)\<rparr>))"

section \<open>The join handler (index.ts, lines 94-120)\<close>

text \<open>
  The loop over \<^verbatim>\<open>socketsInRoom\<close>: \<^verbatim>\<open>None\<close> when a member's registered \<^verbatim>\<open>clientId\<close> equals
  \<^verbatim>\<open>id\<close> (the handler disconnects and returns), otherwise the \<^verbatim>\<open>otherClients\<close> collected.
\<close>

fun spoof_scan :: "(string \<rightharpoonup> client) \<Rightarrow> string \<Rightarrow> int \<Rightarrow> string list
    \<Rightarrow> (string \<times> client option) list \<Rightarrow> (string \<times> client option) list option" where
  "spoof_scan cl sid i [] otherClients = Some otherClients"
| "spoof_scan cl sid i (s # ss) otherClients =
     (if (case cl s of None \<Rightarrow> False | Some c \<Rightarrow> clientId c = i) then None
      else spoof_scan cl sid i ss
             (if s \<noteq> sid then otherClients @ [(s, cl s)] else otherClients))"

definition join_body :: "string \<Rightarrow> string \<Rightarrow> string \<Rightarrow> string \<Rightarrow> int \<Rightarrow> server \<Rightarrow> server" where
  "join_body sid hostName server room i st =
     (let rid = getRoomId hostName server room;
          st1 = st\<lparr>roomId := (roomId st)(sid \<mapsto> rid)\<rparr>
      in case (if rooms st1 rid = [] then Some []
               else spoof_scan (clients st1) sid i (rooms st1 rid) []) of
           None \<Rightarrow> socket_disconnect sid st1
         | Some otherClients \<Rightarrow>
             socket_emit sid (MSetClients otherClients)
               (socket_to_broadcast_emit sid (Some rid) (MJoin sid \<lparr>clientId = i\<rparr>)
                 (socket_join sid rid st1)))"

definition on_join :: "string \<Rightarrow> jsval \<Rightarrow> jsval \<Rightarrow> jsval \<Rightarrow> jsval \<Rightarrow> server \<Rightarrow> server" where
  "on_join sid hostName server room ident st =
     (if typeof hostName \<noteq> ''string'' \<or> typeof server \<noteq> ''string''
         \<or> typeof room \<noteq> ''string'' \<or> typeof ident \<noteq> ''number''
      then socket_disconnect sid st
      else join_body sid (str_of hostName) (str_of server) (str_of room) (num_of ident) st)"

section \<open>The id handler (index.ts, lines 122-139)\<close>

definition on_id :: "string \<Rightarrow> jsval \<Rightarrow> server \<Rightarrow> server" where
  "on_id sid v st =
     (if typeof v \<noteq> ''number'' then socket_disconnect sid st
      else if (case clients st sid of None \<Rightarrow> False | Some c \<Rightarrow> clientId c \<noteq> num_of v)
      then socket_disconnect sid st
      else let client = \<lparr>clientId = num_of v\<rparr>;
               st1 = st\<lparr>clients := (clients st)(sid \<mapsto> client)\<rparr>
           in socket_to_broadcast_emit sid (roomId st1 sid) (MSetClient sid client) st1)"

section \<open>The leave handler (index.ts, lines 142-147)\<close>

definition on_leave :: "string \<Rightarrow> server \<Rightarrow> server" where
  "on_leave sid st =
     (case roomId st sid of
        None \<Rightarrow> st
      | Some r \<Rightarrow>
          if r = [] then st
          else (socket_leave sid r st)\<lparr>clients := (clients st)(sid := None)\<rparr>)"

section \<open>The signal handler (index.ts, lines 149-160)\<close>

definition on_signal :: "string \<Rightarrow> jsval \<Rightarrow> server \<Rightarrow> exn + server" where
  "on_signal sid signal st =
     (if typeof signal \<noteq> ''object'' then Inr (socket_disconnect sid st)
      else case get_prop signal ''data'' of
        Inl e \<Rightarrow> Inl e
      | Inr d \<Rightarrow>
          if \<not> truthy d then Inr (socket_disconnect sid st)
          else case get_prop signal ''to'' of
            Inl e \<Rightarrow> Inl e
          | Inr t \<Rightarrow>
              if \<not> truthy t \<or> typeof t \<noteq> ''string'' then Inr (socket_disconnect sid st)
              else Inr (io_to_emit (str_of t) (MSignal d sid) st))"

section \<open>Events\<close>

text \<open>
  What the transport hands to the server: a handshake with its \<^verbatim>\<open>user-agent\<close> header, the four
  client events of a connection, and the loss of a connection. The transport gives every
  connection an id no connected socket has, and dispatches events of connected sockets only.
\<close>

datatype event =
    Connect string "string option"
  | Join string jsval jsval jsval jsval
  | Id string jsval
  | Leave string
  | Signal string jsval
  | Disconnect string

fun step :: "event \<Rightarrow> server \<Rightarrow> exn + server" where
  "step (Connect sid userAgent) st =
     Inr (if sid \<in> connected st then st
          else case io_use userAgent of Accept \<Rightarrow> accept sid st | Reject d \<Rightarrow> st)"
| "step (Join sid hostName server room ident) st =
     Inr (if sid \<in> connected st then on_join sid hostName server room ident st else st)"
| "step (Id sid v) st = Inr (if sid \<in> connected st then on_id sid v st else st)"
| "step (Leave sid) st = Inr (if sid \<in> connected st then on_leave sid st else st)"
| "step (Signal sid signal) st = (if sid \<in> connected st then on_signal sid signal st else Inr st)"
| "step (Disconnect sid) st = Inr (socket_disconnect sid st)"

fun run :: "event list \<Rightarrow> server \<Rightarrow> exn + server" where
  "run [] st = Inr st"
| "run (e # es) st = (case step e st of Inl x \<Rightarrow> Inl x | Inr st' \<Rightarrow> run es st')"

section \<open>Notions the properties are stated with\<close>

text \<open>The state a sequence of events leads to from the initial state.\<close>

definition state_after :: "event list \<Rightarrow> server" where
  "state_after es = (case run es init of Inl e \<Rightarrow> init | Inr st \<Rightarrow> st)"

text \<open>
  What the regular expression of the version gate describes: the product name, three
  non-empty runs of digits separated by dots, and a non-empty run of word characters in
  parentheses.
\<close>

definition ua_matches :: "string \<Rightarrow> string \<Rightarrow> string \<Rightarrow> bool" where
  "ua_matches ua version platform \<longleftrightarrow>
     (\<exists>a b c. ua = ''PenguinChat/'' @ version @ '' ('' @ platform @ '')''
        \<and> version = a @ ''.'' @ b @ ''.'' @ c
        \<and> a \<noteq> [] \<and> b \<noteq> [] \<and> c \<noteq> [] \<and> platform \<noteq> []
        \<and> (\<forall>x\<in>set a. is_digit x) \<and> (\<forall>x\<in>set b. is_digit x) \<and> (\<forall>x\<in>set c. is_digit x)
        \<and> (\<forall>x\<in>set platform. is_word x))"

text \<open>
  Every room id that \<^verbatim>\<open>getRoomId\<close> builds holds two \<^verbatim>\<open>-\<close> at least. A name with fewer is
  no room id, and in a reachable state the room of that name is the own room of the
  connection with that id, if there is one.
\<close>

definition dashes :: "string \<Rightarrow> nat" where
  "dashes s = length (filter (\<lambda>c. c = CHR ''-'') s)"

definition own_rooms :: "server \<Rightarrow> bool" where
  "own_rooms st \<longleftrightarrow>
     (\<forall>sid r. roomId st sid = Some r \<longrightarrow> 2 \<le> dashes r) \<and>
     (\<forall>t. dashes t < 2 \<longrightarrow> rooms st t = (if t \<in> connected st then [t] else []))"

text \<open>The connection an event belongs to.\<close>

fun sender :: "event \<Rightarrow> string" where
  "sender (Connect sid userAgent) = sid"
| "sender (Join sid hostName server room ident) = sid"
| "sender (Id sid v) = sid"
| "sender (Leave sid) = sid"
| "sender (Signal sid signal) = sid"
| "sender (Disconnect sid) = sid"

subsection \<open>Example runs\<close>

definition ua_ok :: "string option" where
  "ua_ok = Some ''PenguinChat/1.0.0 (win32)''"

definition join_room1 :: "string \<Rightarrow> int \<Rightarrow> event" where
  "join_room1 sid i = Join sid (JStr ''host1'') (JStr ''srv1'') (JStr ''room1'') (JNum i)"

text \<open>A and B join the same room with the ids 5 and 6, then both identify as 5.\<close>

definition both_identify_5 :: "event list" where
  "both_identify_5 =
     [Connect ''A'' ua_ok, Connect ''B'' ua_ok, join_room1 ''A'' 5, join_room1 ''B'' 6,
      Id ''A'' (JNum 5), Id ''B'' (JNum 5)]"

text \<open>A joins with the id 5 and identifies as 5; B and C are connected, B is in the room.\<close>

definition member_5_and_guest :: "event list" where
  "member_5_and_guest =
     [Connect ''A'' ua_ok, Connect ''B'' ua_ok, Connect ''C'' ua_ok,
      join_room1 ''A'' 5, Id ''A'' (JNum 5), join_room1 ''B'' 6]"

text \<open>A identifies as 5 without joining; then A joins and identifies; then two members.\<close>

definition identified_5 :: "event list" where
  "identified_5 = [Connect ''A'' ua_ok, Id ''A'' (JNum 5)]"

definition joined_identified_5 :: "event list" where
  "joined_identified_5 = [Connect ''A'' ua_ok, join_room1 ''A'' 5, Id ''A'' (JNum 5)]"

definition two_members :: "event list" where
  "two_members =
     [Connect ''A'' ua_ok, Connect ''B'' ua_ok, join_room1 ''A'' 5, join_room1 ''B'' 6]"

definition two_members_and_guest :: "event list" where
  "two_members_and_guest =
     [Connect ''A'' ua_ok, Connect ''B'' ua_ok, Connect ''C'' ua_ok,
      join_room1 ''A'' 5, join_room1 ''B'' 6]"

definition signal_to :: "string \<Rightarrow> jsval" where
  "signal_to t = JObj [(''data'', JStr ''x''), (''to'', JStr t)]"

section \<open>Evaluation and basic facts\<close>

lemmas model_defs =
  state_after_def ua_ok_def join_room1_def signal_to_def init_def io_use_def header_text_def
  regex_exec_def run_then_def is_digit_def is_word_def supportedVersions_def error_data_def
  accept_def on_connection_def socket_join_def socket_leave_def on_join_def join_body_def
  getRoomId_def socket_emit_def deliver_def io_to_emit_def socket_to_broadcast_emit_def
  on_id_def on_leave_def on_signal_def socket_disconnect_def on_disconnect_def Let_def

lemma run_append:
  "run (es @ fs) st = (case run es st of Inl x \<Rightarrow> Inl x | Inr st' \<Rightarrow> run fs st')"
  by (induction es arbitrary: st) (auto split: sum.splits)

lemma state_after_snoc:
  assumes "run es init = Inr (state_after es)" and "step e (state_after es) = Inr st'"
  shows "run (es @ [e]) init = Inr st'" and "state_after (es @ [e]) = st'"
proof -
  show "run (es @ [e]) init = Inr st'"
    by (simp add: run_append assms)
  then show "state_after (es @ [e]) = st'"
    by (simp add: state_after_def)
qed

lemma typeof_number: "typeof v = ''number'' \<Longrightarrow> v = JNum (num_of v)"
  by (cases v) simp_all

lemma socket_disconnect_live:
  assumes "sid \<in> connected st"
  shows "connected (socket_disconnect sid st) = connected st - {sid}"
    and "rooms (socket_disconnect sid st) = (\<lambda>r. removeAll sid (rooms st r))"
    and "clients (socket_disconnect sid st) = (clients st)(sid := None)"
    and "connectionCount (socket_disconnect sid st) = connectionCount st - 1"
    and "outbox (socket_disconnect sid st) = outbox st"
    and "roomId (socket_disconnect sid st) = roomId st"
  using assms by (simp_all add: socket_disconnect_def on_disconnect_def)

lemma clients_socket_disconnect:
  "clients (socket_disconnect sid st)
   = (if sid \<in> connected st then (clients st)(sid := None) else clients st)"
  by (simp add: socket_disconnect_def on_disconnect_def)

lemma connected_socket_disconnect:
  "connected (socket_disconnect sid st) = connected st - {sid}"
  by (simp add: socket_disconnect_def on_disconnect_def)

subsection \<open>The spoofing check of join\<close>

lemma spoof_scan_None_iff:
  "spoof_scan cl sid i ms oc = None \<longleftrightarrow> (\<exists>s\<in>set ms. \<exists>c. cl s = Some c \<and> clientId c = i)"
  by (induction ms arbitrary: oc) (auto split: option.splits)

lemma spoof_scan_Some:
  assumes "\<forall>s\<in>set ms. \<forall>c. cl s = Some c \<longrightarrow> clientId c \<noteq> i"
  shows "\<exists>oc'. spoof_scan cl sid i ms oc = Some oc'"
  using assms spoof_scan_None_iff [of cl sid i ms oc] by (cases "spoof_scan cl sid i ms oc") auto

lemma join_body_spoof:
  assumes "s \<in> set (rooms st (getRoomId h sv r))" and "clients st s = Some c" and "clientId c = i"
  shows "join_body sid h sv r i st
         = socket_disconnect sid (st\<lparr>roomId := (roomId st)(sid \<mapsto> getRoomId h sv r)\<rparr>)"
proof -
  have "rooms st (getRoomId h sv r) \<noteq> []" using assms(1) by auto
  moreover have "spoof_scan (clients st) sid i (rooms st (getRoomId h sv r)) [] = None"
    using assms by (auto simp: spoof_scan_None_iff)
  ultimately show ?thesis by (simp add: join_body_def)
qed

lemma join_body_accepts:
  assumes "\<forall>s\<in>set (rooms st (getRoomId h sv r)). \<forall>c. clients st s = Some c \<longrightarrow> clientId c \<noteq> i"
  shows "clients (join_body sid h sv r i st) = clients st
       \<and> connected (join_body sid h sv r i st) = connected st
       \<and> set (rooms (join_body sid h sv r i st) (getRoomId h sv r))
           = insert sid (set (rooms st (getRoomId h sv r)))"
proof -
  obtain oc where "spoof_scan (clients st) sid i (rooms st (getRoomId h sv r)) [] = Some oc"
    using spoof_scan_Some [OF assms] by blast
  then show ?thesis
    by (auto simp add: join_body_def socket_emit_def socket_to_broadcast_emit_def deliver_def
        socket_join_def Let_def)
qed

lemma join_body_cases:
  "join_body sid h sv r i st
     = socket_disconnect sid (st\<lparr>roomId := (roomId st)(sid \<mapsto> getRoomId h sv r)\<rparr>)
   \<or> (clients (join_body sid h sv r i st) = clients st
      \<and> connected (join_body sid h sv r i st) = connected st
      \<and> sid \<in> set (rooms (join_body sid h sv r i st) (getRoomId h sv r)))"
  by (simp add: join_body_def socket_emit_def socket_to_broadcast_emit_def deliver_def
      socket_join_def Let_def split: option.splits)

lemma join_body_connected_iff:
  assumes "sid \<in> connected st"
  shows "sid \<in> connected (join_body sid h sv r i st)
         \<longleftrightarrow> \<not> (\<exists>s\<in>set (rooms st (getRoomId h sv r)). \<exists>c. clients st s = Some c \<and> clientId c = i)"
proof (cases "\<exists>s\<in>set (rooms st (getRoomId h sv r)). \<exists>c. clients st s = Some c \<and> clientId c = i")
  case True
  then obtain s c where "s \<in> set (rooms st (getRoomId h sv r))" "clients st s = Some c" "clientId c = i"
    by blast
  from join_body_spoof [OF this, of sid] True show ?thesis
    by (simp add: connected_socket_disconnect)
next
  case False
  then have "\<forall>s\<in>set (rooms st (getRoomId h sv r)). \<forall>c. clients st s = Some c \<longrightarrow> clientId c \<noteq> i"
    by blast
  from join_body_accepts [OF this, of sid] assms False show ?thesis by simp
qed

lemma on_join_cases:
  assumes "sid \<in> connected st"
  shows "(sid \<notin> connected (on_join sid a b c d st)
          \<and> clients (on_join sid a b c d st) = (clients st)(sid := None))
   \<or> (clients (on_join sid a b c d st) = clients st
      \<and> connected (on_join sid a b c d st) = connected st)"
  using assms join_body_cases [of sid "str_of a" "str_of b" "str_of c" "num_of d" st]
  by (auto simp add: on_join_def clients_socket_disconnect connected_socket_disconnect)

subsection \<open>Who writes the registry\<close>

lemma clients_on_id:
  assumes "clients (on_id sid v st) k = Some c" and "clients st k \<noteq> Some c"
  shows "k = sid \<and> v = JNum (clientId c)"
  using assms
  by (auto simp add: on_id_def clients_socket_disconnect socket_to_broadcast_emit_def deliver_def
      Let_def dest: typeof_number split: if_splits option.splits)

lemma clients_on_leave:
  "clients (on_leave sid st) k = Some c \<Longrightarrow> clients st k = Some c"
  by (auto simp add: on_leave_def socket_leave_def split: if_splits option.splits)

lemma clients_on_signal:
  "on_signal sid sg st = Inr st' \<Longrightarrow> clients st' k = Some c \<Longrightarrow> clients st k = Some c"
  by (auto simp add: on_signal_def clients_socket_disconnect io_to_emit_def deliver_def
      split: if_splits sum.splits)

lemma clients_accept: "clients (accept sid st) = clients st"
  by (simp add: accept_def on_connection_def socket_join_def)

lemma only_id_writes:
  assumes "step e st = Inr st'" and "clients st' k = Some c" and "clients st k \<noteq> Some c"
  shows "e = Id k (JNum (clientId c))"
proof (cases e)
  case (Connect sid ua)
  then show ?thesis using assms by (auto simp: clients_accept split: if_splits handshake.splits)
next
  case (Join sid a b c' d)
  then show ?thesis using assms on_join_cases [of sid st a b c' d] by (auto split: if_splits)
next
  case (Id sid v)
  then show ?thesis using assms clients_on_id [of sid v st k c] by (auto split: if_splits)
next
  case (Leave sid)
  then show ?thesis using assms clients_on_leave [of sid st k c] by (auto split: if_splits)
next
  case (Signal sid sg)
  then show ?thesis using assms clients_on_signal [of sid sg st st' k c] by (auto split: if_splits)
next
  case (Disconnect sid)
  then show ?thesis using assms by (auto simp: clients_socket_disconnect split: if_splits)
qed

lemma clients_step_other:
  assumes "step e st = Inr st'" and "sender e \<noteq> k"
  shows "clients st' k = clients st k"
proof (cases e)
  case (Connect sid ua)
  then show ?thesis using assms by (auto simp: clients_accept split: if_splits handshake.splits)
next
  case (Join sid a b c d)
  then show ?thesis using assms on_join_cases [of sid st a b c d] by (auto split: if_splits)
next
  case (Id sid v)
  then show ?thesis using assms
    by (auto simp add: on_id_def clients_socket_disconnect socket_to_broadcast_emit_def deliver_def
        Let_def split: if_splits option.splits)
next
  case (Leave sid)
  then show ?thesis using assms
    by (auto simp add: on_leave_def socket_leave_def split: if_splits option.splits)
next
  case (Signal sid sg)
  then show ?thesis using assms
    by (auto simp add: on_signal_def clients_socket_disconnect io_to_emit_def deliver_def
        split: if_splits sum.splits)
next
  case (Disconnect sid)
  then show ?thesis using assms by (auto simp: clients_socket_disconnect split: if_splits)
qed

lemma never_identified_no_entry:
  assumes "run es st0 = Inr st" and "clients st0 k = None" and "\<forall>v. Id k v \<notin> set es"
  shows "clients st k = None"
  using assms
proof (induction es arbitrary: st0)
  case Nil
  then show ?case by simp
next
  case (Cons e es)
  from Cons.prems(1) obtain st1 where s1: "step e st0 = Inr st1" and r1: "run es st1 = Inr st"
    by (auto split: sum.splits)
  have "clients st1 k = None"
  proof (rule ccontr)
    assume "clients st1 k \<noteq> None"
    then obtain c where "clients st1 k = Some c" by auto
    with s1 Cons.prems(2) have "e = Id k (JNum (clientId c))" by (auto dest: only_id_writes)
    with Cons.prems(3) show False by auto
  qed
  with Cons.IH [OF r1] Cons.prems(3) show ?case by auto
qed

subsection \<open>Own rooms in reachable states\<close>

lemma dashes_getRoomId: "2 \<le> dashes (getRoomId h sv r)"
  by (simp add: dashes_def getRoomId_def)

lemma own_rooms_init: "own_rooms init"
  by (simp add: own_rooms_def init_def)

lemma own_rooms_socket_disconnect:
  assumes "own_rooms st" shows "own_rooms (socket_disconnect sid st)"
  using assms by (auto simp add: own_rooms_def socket_disconnect_def on_disconnect_def)

lemma own_rooms_roomId_upd:
  assumes "own_rooms st"
  shows "own_rooms (st\<lparr>roomId := (roomId st)(sid \<mapsto> getRoomId h sv r)\<rparr>)"
  using assms dashes_getRoomId by (auto simp add: own_rooms_def)

lemma own_rooms_join_body:
  assumes "own_rooms st" shows "own_rooms (join_body sid h sv r i st)"
proof -
  let ?st1 = "st\<lparr>roomId := (roomId st)(sid \<mapsto> getRoomId h sv r)\<rparr>"
  have st1: "own_rooms ?st1" using assms by (rule own_rooms_roomId_upd)
  have acc: "own_rooms (socket_emit sid m1
               (socket_to_broadcast_emit sid (Some (getRoomId h sv r)) m2
                 (socket_join sid (getRoomId h sv r) ?st1)))" for m1 m2
    using st1 dashes_getRoomId [of h sv r]
    by (auto simp add: own_rooms_def socket_emit_def socket_to_broadcast_emit_def deliver_def
        socket_join_def)
  show ?thesis
    using own_rooms_socket_disconnect [OF st1, of sid] acc
    by (simp add: join_body_def Let_def split: option.splits)
qed

lemma own_rooms_on_join:
  assumes "own_rooms st" shows "own_rooms (on_join sid a b c d st)"
  using assms by (simp add: on_join_def own_rooms_socket_disconnect own_rooms_join_body)

lemma own_rooms_on_id:
  assumes "own_rooms st" shows "own_rooms (on_id sid v st)"
proof -
  have "own_rooms (socket_to_broadcast_emit sid ro m (st\<lparr>clients := cl\<rparr>))" for ro m cl
    using assms
    by (auto simp add: own_rooms_def socket_to_broadcast_emit_def deliver_def split: option.splits)
  then show ?thesis
    using assms by (simp add: on_id_def Let_def own_rooms_socket_disconnect)
qed

lemma own_rooms_on_leave:
  assumes "own_rooms st" shows "own_rooms (on_leave sid st)"
proof (cases "roomId st sid")
  case None
  then show ?thesis using assms by (simp add: on_leave_def)
next
  case (Some r)
  with assms have "2 \<le> dashes r" by (auto simp add: own_rooms_def)
  then have "\<And>t. dashes t < 2 \<Longrightarrow> t \<noteq> r" by auto
  with assms Some show ?thesis
    by (simp add: own_rooms_def on_leave_def socket_leave_def)
qed

lemma own_rooms_on_signal:
  assumes "own_rooms st" and "on_signal sid sg st = Inr st'" shows "own_rooms st'"
proof -
  have "own_rooms (io_to_emit t m st)" for t m
    using assms(1) by (auto simp add: own_rooms_def io_to_emit_def deliver_def)
  then show ?thesis
    using assms own_rooms_socket_disconnect [OF assms(1), of sid]
    by (auto simp add: on_signal_def split: if_splits sum.splits)
qed

lemma own_rooms_accept:
  assumes "own_rooms st" and "sid \<notin> connected st" shows "own_rooms (accept sid st)"
  using assms by (auto simp add: own_rooms_def accept_def on_connection_def socket_join_def)

lemma own_rooms_step:
  assumes "own_rooms st" and "step e st = Inr st'" shows "own_rooms st'"
proof (cases e)
  case (Connect sid ua)
  then show ?thesis using assms own_rooms_accept [of st sid]
    by (auto split: if_splits handshake.splits)
next
  case (Join sid a b c d)
  then show ?thesis using assms own_rooms_on_join [of st sid a b c d] by (auto split: if_splits)
next
  case (Id sid v)
  then show ?thesis using assms own_rooms_on_id [of st sid v] by (auto split: if_splits)
next
  case (Leave sid)
  then show ?thesis using assms own_rooms_on_leave [of st sid] by (auto split: if_splits)
next
  case (Signal sid sg)
  then show ?thesis using assms own_rooms_on_signal [of st sid sg st'] by (auto split: if_splits)
next
  case (Disconnect sid)
  then show ?thesis using assms own_rooms_socket_disconnect [of st sid] by auto
qed

lemma own_rooms_run:
  assumes "own_rooms st0" and "run es st0 = Inr st" shows "own_rooms st"
  using assms
proof (induction es arbitrary: st0)
  case Nil
  then show ?case by simp
next
  case (Cons e es)
  from Cons.prems(2) obtain st1 where "step e st0 = Inr st1" and "run es st1 = Inr st"
    by (auto split: sum.splits)
  with Cons.IH own_rooms_step [OF Cons.prems(1)] show ?case by blast
qed

lemma reachable_own_room:
  assumes "run es init = Inr st" and "dashes t < 2"
  shows "rooms st t = (if t \<in> connected st then [t] else [])"
  using own_rooms_run [OF own_rooms_init assms(1)] assms(2) by (simp add: own_rooms_def)

subsection \<open>The pattern of the version gate\<close>

lemma strip_prefix_Some_iff: "strip_prefix p s = Some r \<longleftrightarrow> s = p @ r"
  by (induction p s rule: strip_prefix.induct) auto

lemma run_then_Some_iff:
  assumes "\<not> cls y"
  shows "run_then cls (y # ys) s = Some (a, r)
         \<longleftrightarrow> s = a @ (y # ys) @ r \<and> a \<noteq> [] \<and> (\<forall>x\<in>set a. cls x)"
proof
  assume "run_then cls (y # ys) s = Some (a, r)"
  then have a: "a = takeWhile cls s" and ne: "a \<noteq> []" and d: "dropWhile cls s = (y # ys) @ r"
    by (auto simp add: run_then_def strip_prefix_Some_iff split: if_splits option.splits)
  have "s = takeWhile cls s @ dropWhile cls s" by simp
  with a d have "s = a @ (y # ys) @ r" by simp
  moreover have "\<forall>x\<in>set a. cls x" unfolding a by (auto dest: set_takeWhileD)
  ultimately show "s = a @ (y # ys) @ r \<and> a \<noteq> [] \<and> (\<forall>x\<in>set a. cls x)" using ne by simp
next
  assume h: "s = a @ (y # ys) @ r \<and> a \<noteq> [] \<and> (\<forall>x\<in>set a. cls x)"
  then have s: "s = a @ (y # ys) @ r" and ne: "a \<noteq> []" by simp_all
  have tw: "takeWhile cls (a @ (y # ys) @ r) = a"
    and dw: "dropWhile cls (a @ (y # ys) @ r) = (y # ys) @ r"
    using h assms by (simp_all add: takeWhile_tail dropWhile_append3)
  have sp: "strip_prefix (y # ys) ((y # ys) @ r) = Some r"
    unfolding strip_prefix_Some_iff ..
  show "run_then cls (y # ys) s = Some (a, r)"
    unfolding run_then_def s tw dw sp using ne by simp
qed

lemma not_digit: "\<not> is_digit CHR ''.''" "\<not> is_digit CHR '' ''"
  by (simp_all add: is_digit_def)

lemma not_word: "\<not> is_word CHR '')''"
  by (simp add: is_word_def)

lemma run_then_iffs:
  "run_then is_digit ''.'' s = Some (a, r)
     \<longleftrightarrow> s = a @ ''.'' @ r \<and> a \<noteq> [] \<and> (\<forall>x\<in>set a. is_digit x)"
  "run_then is_digit '' ('' s = Some (a, r)
     \<longleftrightarrow> s = a @ '' ('' @ r \<and> a \<noteq> [] \<and> (\<forall>x\<in>set a. is_digit x)"
  "run_then is_word '')'' s = Some (a, r)
     \<longleftrightarrow> s = a @ '')'' @ r \<and> a \<noteq> [] \<and> (\<forall>x\<in>set a. is_word x)"
  using run_then_Some_iff [of is_digit "CHR ''.''" "[]" s a r]
    run_then_Some_iff [of is_digit "CHR '' ''" "''(''" s a r]
    run_then_Some_iff [of is_word "CHR '')''" "[]" s a r] not_digit not_word
  by simp_all

lemma regex_exec_sound:
  assumes "regex_exec ua = Some (v, p)" shows "ua_matches ua v p"
proof -
  from assms obtain r1 where r1: "ua = ''PenguinChat/'' @ r1"
    by (auto simp add: regex_exec_def strip_prefix_Some_iff split: option.splits)
  then have s1: "strip_prefix ''PenguinChat/'' ua = Some r1" by (simp add: strip_prefix_Some_iff)
  from assms obtain a r2 where t1: "run_then is_digit ''.'' r1 = Some (a, r2)"
    unfolding regex_exec_def s1 option.case by (auto split: option.splits)
  from assms obtain b r3 where t2: "run_then is_digit ''.'' r2 = Some (b, r3)"
    unfolding regex_exec_def s1 option.case t1 prod.case by (auto split: option.splits)
  from assms obtain c r4 where t3: "run_then is_digit '' ('' r3 = Some (c, r4)"
    unfolding regex_exec_def s1 option.case t1 t2 prod.case by (auto split: option.splits)
  from assms obtain w r5 where t4: "run_then is_word '')'' r4 = Some (w, r5)"
    unfolding regex_exec_def s1 option.case t1 t2 t3 prod.case by (auto split: option.splits)
  from assms have res: "r5 = []" "v = a @ ''.'' @ b @ ''.'' @ c" "p = w"
    unfolding regex_exec_def s1 option.case t1 t2 t3 t4 prod.case by (auto split: if_splits)
  show ?thesis
    unfolding ua_matches_def
    using r1 t1 t2 t3 t4 res
    by (intro exI [of _ a] exI [of _ b] exI [of _ c]) (simp add: run_then_iffs)
qed

lemma regex_exec_complete:
  assumes "ua_matches ua v p" shows "regex_exec ua = Some (v, p)"
proof -
  from assms obtain a b c
    where ua: "ua = ''PenguinChat/'' @ a @ ''.'' @ b @ ''.'' @ c @ '' ('' @ p @ '')''"
    and v: "v = a @ ''.'' @ b @ ''.'' @ c"
    and ne: "a \<noteq> []" "b \<noteq> []" "c \<noteq> []" "p \<noteq> []"
    and da: "\<forall>x\<in>set a. is_digit x" and db: "\<forall>x\<in>set b. is_digit x"
    and dc: "\<forall>x\<in>set c. is_digit x" and wp: "\<forall>x\<in>set p. is_word x"
    by (auto simp add: ua_matches_def)
  have s1: "strip_prefix ''PenguinChat/'' ua
            = Some (a @ ''.'' @ b @ ''.'' @ c @ '' ('' @ p @ '')'')"
    unfolding strip_prefix_Some_iff ua by simp
  have t1: "run_then is_digit ''.'' (a @ ''.'' @ b @ ''.'' @ c @ '' ('' @ p @ '')'')
            = Some (a, b @ ''.'' @ c @ '' ('' @ p @ '')'')"
    using ne da by (simp add: run_then_iffs)
  have t2: "run_then is_digit ''.'' (b @ ''.'' @ c @ '' ('' @ p @ '')'')
            = Some (b, c @ '' ('' @ p @ '')'')"
    using ne db by (simp add: run_then_iffs)
  have t3: "run_then is_digit '' ('' (c @ '' ('' @ p @ '')'') = Some (c, p @ '')'')"
    using ne dc by (simp add: run_then_iffs)
  have t4: "run_then is_word '')'' (p @ '')'') = Some (p, [])"
    using ne wp by (simp add: run_then_iffs)
  show ?thesis
    unfolding regex_exec_def s1 option.case t1 t2 t3 t4 prod.case using v by simp
qed

lemma regex_exec_iff: "regex_exec ua = Some (v, p) \<longleftrightarrow> ua_matches ua v p"
  using regex_exec_sound regex_exec_complete by blast

section \<open>The claims\<close>

text \<open>
  C1. Claimed: in every reachable state no two distinct live members of a room hold the
  same registered clientId. The run below is reachable and ends with A and B connected,
  both members of the room, both registered with the clientId 5: the id handler compares
  the new id with the connection's own entry only.
\<close>

theorem identify_shares_clientId:
  "run both_identify_5 init = Inr (state_after both_identify_5)
   \<and> rooms (state_after both_identify_5) ''host1-srv1-room1'' = [''A'', ''B'']
   \<and> ''A'' \<in> connected (state_after both_identify_5)
   \<and> ''B'' \<in> connected (state_after both_identify_5)
   \<and> clients (state_after both_identify_5) ''A'' = Some \<lparr>clientId = 5\<rparr>
   \<and> clients (state_after both_identify_5) ''B'' = Some \<lparr>clientId = 5\<rparr>"
  by (simp add: both_identify_5_def model_defs)

text \<open>
  C2 (amended). A join whose id equals the registered clientId of a member of the derived
  room does nothing but set the connection's roomId and terminate the joining connection:
  it is no longer connected, it is not a member of the room afterwards, nothing is
  emitted, and every room's membership is what it was without the joining connection. So
  the room is unchanged when the joining connection was not a member of it already.
\<close>

theorem join_spoof_terminates:
  assumes "sid \<in> connected st"
    and "s \<in> set (rooms st (getRoomId h sv r))" and "clients st s = Some c" and "clientId c = i"
  shows "\<exists>st'. step (Join sid (JStr h) (JStr sv) (JStr r) (JNum i)) st = Inr st'
       \<and> st' = socket_disconnect sid (st\<lparr>roomId := (roomId st)(sid \<mapsto> getRoomId h sv r)\<rparr>)
       \<and> sid \<notin> connected st'
       \<and> sid \<notin> set (rooms st' (getRoomId h sv r))
       \<and> outbox st' = outbox st
       \<and> rooms st' = (\<lambda>room. removeAll sid (rooms st room))
       \<and> (sid \<notin> set (rooms st (getRoomId h sv r))
            \<longrightarrow> rooms st' (getRoomId h sv r) = rooms st (getRoomId h sv r))"
  using assms by (simp add: on_join_def join_body_spoof socket_disconnect_live)

theorem join_spoof_terminates_witness:
  "''C'' \<in> connected (state_after member_5_and_guest)
   \<and> ''A'' \<in> set (rooms (state_after member_5_and_guest) (getRoomId ''host1'' ''srv1'' ''room1''))
   \<and> clients (state_after member_5_and_guest) ''A'' = Some \<lparr>clientId = 5\<rparr>
   \<and> ''C'' \<notin> connected (state_after (member_5_and_guest @ [join_room1 ''C'' 5]))
   \<and> rooms (state_after member_5_and_guest) ''host1-srv1-room1'' = [''A'', ''B'']
   \<and> rooms (state_after (member_5_and_guest @ [join_room1 ''C'' 5])) ''host1-srv1-room1'' = [''A'', ''B'']
   \<and> outbox (state_after (member_5_and_guest @ [join_room1 ''C'' 5])) = outbox (state_after member_5_and_guest)"
proof -
  have h1: "''C'' \<in> connected (state_after member_5_and_guest)"
    by (simp add: member_5_and_guest_def model_defs)
  have h2: "''A'' \<in> set (rooms (state_after member_5_and_guest) (getRoomId ''host1'' ''srv1'' ''room1''))"
    by (simp add: member_5_and_guest_def model_defs)
  have h3: "clients (state_after member_5_and_guest) ''A'' = Some \<lparr>clientId = 5\<rparr>"
    by (simp add: member_5_and_guest_def model_defs)
  have h4: "clientId \<lparr>clientId = 5\<rparr> = (5::int)" by simp
  show ?thesis
    using h1 h2 h3 join_spoof_terminates [OF h1 h2 h3 h4]
    by (simp add: member_5_and_guest_def model_defs)
qed

text \<open>
  The claim as stated fails where the joining connection is a member of the room already:
  A, registered with the clientId 5, joins its room again with the id 5, and the room
  loses A.
\<close>

theorem join_spoof_counterexample:
  "run (joined_identified_5 @ [join_room1 ''A'' 5]) init = Inr (state_after (joined_identified_5 @ [join_room1 ''A'' 5]))
   \<and> ''A'' \<in> connected (state_after joined_identified_5)
   \<and> clients (state_after joined_identified_5) ''A'' = Some \<lparr>clientId = 5\<rparr>
   \<and> rooms (state_after joined_identified_5) (getRoomId ''host1'' ''srv1'' ''room1'') = [''A'']
   \<and> rooms (state_after (joined_identified_5 @ [join_room1 ''A'' 5])) (getRoomId ''host1'' ''srv1'' ''room1'') = []"
  by (simp add: joined_identified_5_def model_defs)

text \<open>
  C3 (amended). An identify with a number that differs from the clientId the connection
  has registered does nothing but terminate the connection. The new clientId is not
  stored and nothing is emitted; the termination runs the disconnect handler, which
  deletes the connection's registry entry, and the connection leaves its rooms. Every
  other entry is unchanged.
\<close>

theorem id_spoof_terminates:
  assumes "sid \<in> connected st" and "clients st sid = Some c" and "clientId c \<noteq> n"
  shows "\<exists>st'. step (Id sid (JNum n)) st = Inr st'
       \<and> st' = socket_disconnect sid st
       \<and> sid \<notin> connected st'
       \<and> outbox st' = outbox st
       \<and> clients st' = (clients st)(sid := None)
       \<and> clients st' sid \<noteq> Some \<lparr>clientId = n\<rparr>
       \<and> rooms st' = (\<lambda>r. removeAll sid (rooms st r))"
  using assms by (simp add: on_id_def socket_disconnect_live)

theorem id_spoof_terminates_witness:
  "''A'' \<in> connected (state_after identified_5)
   \<and> clients (state_after identified_5) ''A'' = Some \<lparr>clientId = 5\<rparr>
   \<and> ''A'' \<notin> connected (state_after (identified_5 @ [Id ''A'' (JNum 6)]))
   \<and> outbox (state_after (identified_5 @ [Id ''A'' (JNum 6)])) = outbox (state_after identified_5)"
proof -
  have h1: "''A'' \<in> connected (state_after identified_5)"
    by (simp add: identified_5_def model_defs)
  have h2: "clients (state_after identified_5) ''A'' = Some \<lparr>clientId = 5\<rparr>"
    by (simp add: identified_5_def model_defs)
  have h3: "clientId \<lparr>clientId = 5\<rparr> \<noteq> (6::int)" by simp
  show ?thesis
    using h1 h2 id_spoof_terminates [OF h1 h2 h3]
    by (simp add: identified_5_def model_defs)
qed

text \<open>
  The claim as stated fails: after the refused identify the registry entry of A, which
  held the clientId 5, is gone.
\<close>

theorem id_spoof_counterexample:
  "run (identified_5 @ [Id ''A'' (JNum 6)]) init = Inr (state_after (identified_5 @ [Id ''A'' (JNum 6)]))
   \<and> clients (state_after identified_5) ''A'' = Some \<lparr>clientId = 5\<rparr>
   \<and> clients (state_after (identified_5 @ [Id ''A'' (JNum 6)])) ''A'' = None"
  by (simp add: identified_5_def model_defs)

text \<open>
  C4 (amended). A leave of a connection whose last join was to the room r removes it from
  the members of r and deletes its registry entry; it stays connected, keeps its other
  rooms, and every other entry of the registry is unchanged.
\<close>

theorem leave_deletes_registry_entry:
  assumes "sid \<in> connected st" and "roomId st sid = Some r" and "r \<noteq> []"
  shows "\<exists>st'. step (Leave sid) st = Inr st'
       \<and> rooms st' = (rooms st)(r := removeAll sid (rooms st r))
       \<and> sid \<notin> set (rooms st' r)
       \<and> clients st' = (clients st)(sid := None)
       \<and> connected st' = connected st"
  using assms by (simp add: on_leave_def socket_leave_def)

theorem leave_deletes_registry_entry_witness:
  "''A'' \<in> connected (state_after joined_identified_5)
   \<and> roomId (state_after joined_identified_5) ''A'' = Some ''host1-srv1-room1''
   \<and> ''A'' \<in> set (rooms (state_after joined_identified_5) ''host1-srv1-room1'')
   \<and> ''A'' \<notin> set (rooms (state_after (joined_identified_5 @ [Leave ''A''])) ''host1-srv1-room1'')
   \<and> ''A'' \<in> connected (state_after (joined_identified_5 @ [Leave ''A'']))"
proof -
  have h1: "''A'' \<in> connected (state_after joined_identified_5)"
    by (simp add: joined_identified_5_def model_defs)
  have h2: "roomId (state_after joined_identified_5) ''A'' = Some ''host1-srv1-room1''"
    by (simp add: joined_identified_5_def model_defs)
  have h3: "''host1-srv1-room1'' \<noteq> []" by simp
  show ?thesis
    using h1 h2 leave_deletes_registry_entry [OF h1 h2 h3]
    by (simp add: joined_identified_5_def model_defs)
qed

text \<open>
  The claim as stated fails: A is in a room and registered with the clientId 5; after its
  leave it is still connected and its registry entry is gone.
\<close>

theorem leave_registry_counterexample:
  "run (joined_identified_5 @ [Leave ''A'']) init = Inr (state_after (joined_identified_5 @ [Leave ''A'']))
   \<and> ''A'' \<in> set (rooms (state_after joined_identified_5) ''host1-srv1-room1'')
   \<and> clients (state_after joined_identified_5) ''A'' = Some \<lparr>clientId = 5\<rparr>
   \<and> ''A'' \<in> connected (state_after (joined_identified_5 @ [Leave ''A'']))
   \<and> clients (state_after (joined_identified_5 @ [Leave ''A''])) ''A'' = None"
  by (simp add: joined_identified_5_def model_defs)

text \<open>
  C5 (amended). A leave removes the connection from the room of its last join and leaves
  its roomId as it was, so an identify that follows is still broadcast, as setClient, to
  the members that remain in that room. A leave of a connection that never joined (its
  roomId is null) changes nothing.
\<close>

theorem leave_keeps_roomId:
  assumes "sid \<in> connected st" and "roomId st sid = Some r" and "r \<noteq> []"
  shows "\<exists>st1 st2. step (Leave sid) st = Inr st1
       \<and> roomId st1 = roomId st
       \<and> sid \<notin> set (rooms st1 r)
       \<and> step (Id sid (JNum n)) st1 = Inr st2
       \<and> outbox st2 = outbox st @ map (\<lambda>m. (m, MSetClient sid \<lparr>clientId = n\<rparr>))
                                      (removeAll sid (rooms st r))
       \<and> (\<forall>s0 c0. roomId s0 c0 = None \<longrightarrow> step (Leave c0) s0 = Inr s0)"
  using assms
  by (simp add: on_leave_def socket_leave_def on_id_def socket_to_broadcast_emit_def deliver_def
      Let_def filter_id_conv)

theorem leave_keeps_roomId_witness:
  "''A'' \<in> connected (state_after two_members)
   \<and> roomId (state_after two_members) ''A'' = Some ''host1-srv1-room1''
   \<and> rooms (state_after two_members) ''host1-srv1-room1'' = [''A'', ''B'']
   \<and> roomId (state_after (two_members @ [Leave ''A''])) ''A'' = Some ''host1-srv1-room1''
   \<and> roomId (state_after [Connect ''A'' ua_ok]) ''A'' = None
   \<and> step (Leave ''A'') (state_after [Connect ''A'' ua_ok]) = Inr (state_after [Connect ''A'' ua_ok])"
proof -
  have h1: "''A'' \<in> connected (state_after two_members)"
    by (simp add: two_members_def model_defs)
  have h2: "roomId (state_after two_members) ''A'' = Some ''host1-srv1-room1''"
    by (simp add: two_members_def model_defs)
  have h3: "''host1-srv1-room1'' \<noteq> []" by simp
  show ?thesis
    using h1 h2 leave_keeps_roomId [OF h1 h2 h3, of 7]
    by (simp add: two_members_def model_defs)
qed

text \<open>
  The claim as stated fails: after its leave A is in no room, its roomId still names the
  room, and its identify reaches B, who is still there.
\<close>

theorem leave_roomId_counterexample:
  "run (two_members @ [Leave ''A'', Id ''A'' (JNum 7)]) init
     = Inr (state_after (two_members @ [Leave ''A'', Id ''A'' (JNum 7)]))
   \<and> rooms (state_after (two_members @ [Leave ''A''])) ''host1-srv1-room1'' = [''B'']
   \<and> roomId (state_after (two_members @ [Leave ''A''])) ''A'' = Some ''host1-srv1-room1''
   \<and> outbox (state_after (two_members @ [Leave ''A'', Id ''A'' (JNum 7)]))
       = outbox (state_after (two_members @ [Leave ''A'']))
         @ [(''B'', MSetClient ''A'' \<lparr>clientId = 7\<rparr>)]"
  by (simp add: two_members_def model_defs)

text \<open>
  C6 (amended). A signal whose payload is an object with a truthy data and a non-empty
  string to is delivered, with the sender's id as from, to every member of the room named
  to, and to nobody else; the sender stays connected and nothing else changes. In a
  reachable state, when to holds fewer than two dashes (it is no room id): if it is the id
  of a connected socket, exactly that socket receives the signal; if it is not, nothing is
  delivered and the state is unchanged.
\<close>

theorem signal_relays_to_room:
  assumes "sid \<in> connected st"
    and "map_of fs ''data'' = Some d" and "truthy d"
    and "map_of fs ''to'' = Some (JStr t)" and "t \<noteq> []"
  shows "\<exists>st'. step (Signal sid (JObj fs)) st = Inr st'
       \<and> outbox st' = outbox st @ map (\<lambda>m. (m, MSignal d sid)) (rooms st t)
       \<and> connected st' = connected st \<and> clients st' = clients st \<and> rooms st' = rooms st
       \<and> (rooms st t = [] \<longrightarrow> st' = st)
       \<and> ((\<exists>es. run es init = Inr st) \<and> dashes t < 2 \<and> t \<in> connected st
            \<longrightarrow> outbox st' = outbox st @ [(t, MSignal d sid)])
       \<and> ((\<exists>es. run es init = Inr st) \<and> dashes t < 2 \<and> t \<notin> connected st
            \<longrightarrow> st' = st)"
proof -
  have s: "step (Signal sid (JObj fs)) st = Inr (io_to_emit t (MSignal d sid) st)"
    using assms by (simp add: on_signal_def)
  have r: "rooms st t = (if t \<in> connected st then [t] else [])"
    if "\<exists>es. run es init = Inr st" and "dashes t < 2"
    using that reachable_own_room by blast
  show ?thesis
    using s r by (auto simp add: io_to_emit_def deliver_def)
qed

theorem signal_relays_to_room_witness:
  "''A'' \<in> connected (state_after two_members_and_guest)
   \<and> map_of [(''data'', JStr ''x''), (''to'', JStr ''B'')] ''data'' = Some (JStr ''x'')
   \<and> truthy (JStr ''x'')
   \<and> map_of [(''data'', JStr ''x''), (''to'', JStr ''B'')] ''to'' = Some (JStr ''B'')
   \<and> run two_members_and_guest init = Inr (state_after two_members_and_guest)
   \<and> dashes ''B'' < 2 \<and> ''B'' \<in> connected (state_after two_members_and_guest)
   \<and> outbox (state_after (two_members_and_guest @ [Signal ''A'' (signal_to ''B'')]))
       = outbox (state_after two_members_and_guest) @ [(''B'', MSignal (JStr ''x'') ''A'')]
   \<and> dashes ''nonexistent'' < 2 \<and> ''nonexistent'' \<notin> connected (state_after two_members_and_guest)
   \<and> state_after (two_members_and_guest @ [Signal ''A'' (signal_to ''nonexistent'')]) = state_after two_members_and_guest"
proof -
  have h1: "''A'' \<in> connected (state_after two_members_and_guest)"
    by (simp add: two_members_and_guest_def model_defs)
  have h2: "map_of [(''data'', JStr ''x''), (''to'', JStr t)] ''data'' = Some (JStr ''x'')" for t
    by simp
  have h3: "truthy (JStr ''x'')" by simp
  have h4: "map_of [(''data'', JStr ''x''), (''to'', JStr t)] ''to'' = Some (JStr t)" for t
    by simp
  have r: "run two_members_and_guest init = Inr (state_after two_members_and_guest)"
    by (simp add: two_members_and_guest_def model_defs)
  have b: "''B'' \<in> connected (state_after two_members_and_guest)"
    by (simp add: two_members_and_guest_def model_defs)
  have n: "''nonexistent'' \<notin> connected (state_after two_members_and_guest)"
    by (simp add: two_members_and_guest_def model_defs)
  have d: "dashes ''B'' < 2" "dashes ''nonexistent'' < 2" by (simp_all add: dashes_def)
  have ex: "\<exists>es. run es init = Inr (state_after two_members_and_guest)" using r by blast
  from signal_relays_to_room [OF h1 h2 h3 h4, of "''B''"]
  obtain st1 where s1: "step (Signal ''A'' (signal_to ''B'')) (state_after two_members_and_guest) = Inr st1"
    and o1: "outbox st1 = outbox (state_after two_members_and_guest) @ [(''B'', MSignal (JStr ''x'') ''A'')]"
    using ex d b unfolding signal_to_def by auto
  from signal_relays_to_room [OF h1 h2 h3 h4, of "''nonexistent''"]
  obtain st2 where s2: "step (Signal ''A'' (signal_to ''nonexistent'')) (state_after two_members_and_guest) = Inr st2"
    and o2: "st2 = state_after two_members_and_guest"
    using ex d n unfolding signal_to_def by auto
  show ?thesis
    using h1 h2 h3 h4 r b n d o1 o2 state_after_snoc(2) [OF r s1] state_after_snoc(2) [OF r s2]
    by simp
qed

text \<open>
  The claim as stated fails where to names a room: no connection has the id
  host1-srv1-room1, and the signal C sends there is not dropped but delivered to A and B,
  the members of that room.
\<close>

theorem signal_room_counterexample:
  "run (two_members_and_guest @ [Signal ''C'' (signal_to ''host1-srv1-room1'')]) init
     = Inr (state_after (two_members_and_guest @ [Signal ''C'' (signal_to ''host1-srv1-room1'')]))
   \<and> ''host1-srv1-room1'' \<notin> connected (state_after two_members_and_guest)
   \<and> outbox (state_after (two_members_and_guest @ [Signal ''C'' (signal_to ''host1-srv1-room1'')]))
       = outbox (state_after two_members_and_guest)
         @ [(''A'', MSignal (JStr ''x'') ''C''), (''B'', MSignal (JStr ''x'') ''C'')]"
  by (simp add: two_members_and_guest_def model_defs)

text \<open>
  C7 (amended). A handshake whose user-agent does not match the pattern, or whose version
  is not a supported one, is rejected with an error payload of one field, message. The
  message ends with the supported versions joined by commas; there is no field
  supportedVersions.
\<close>

theorem version_gate_rejects:
  assumes "(\<forall>v p. \<not> ua_matches (header_text userAgent) v p)
         \<or> (\<exists>v p. ua_matches (header_text userAgent) v p \<and> v \<notin> set supportedVersions)"
  shows "io_use userAgent = Reject (JObj [(''message'', JStr
           (''The voice server does not support your version of PenguinChat.'' @ [CHR 0x0A] @
            ''Supported versions: 1.0.0''))])
       \<and> (\<exists>d. io_use userAgent = Reject d \<and> get_prop d ''supportedVersions'' = Inr JUndefined)"
proof -
  have e: "error_data = JObj [(''message'', JStr
           (''The voice server does not support your version of PenguinChat.'' @ [CHR 0x0A] @
            ''Supported versions: 1.0.0''))]"
    by (simp add: error_data_def supportedVersions_def)
  have "io_use userAgent = Reject error_data"
    using assms
  proof
    assume "\<forall>v p. \<not> ua_matches (header_text userAgent) v p"
    then have "regex_exec (header_text userAgent) = None"
      using regex_exec_iff by (cases "regex_exec (header_text userAgent)") auto
    then show ?thesis by (simp add: io_use_def)
  next
    assume "\<exists>v p. ua_matches (header_text userAgent) v p \<and> v \<notin> set supportedVersions"
    then obtain v p where "regex_exec (header_text userAgent) = Some (v, p)"
      and "v \<notin> set supportedVersions"
      using regex_exec_iff by blast
    then show ?thesis by (simp add: io_use_def)
  qed
  then show ?thesis by (simp add: e)
qed

theorem version_gate_rejects_witness:
  "regex_exec (header_text (Some ''PenguinChat/2.0.0 (win32)'')) = Some (''2.0.0'', ''win32'')
   \<and> ''2.0.0'' \<notin> set supportedVersions
   \<and> io_use (Some ''PenguinChat/2.0.0 (win32)'') = Reject (JObj [(''message'', JStr
           (''The voice server does not support your version of PenguinChat.'' @ [CHR 0x0A] @
            ''Supported versions: 1.0.0''))])
   \<and> regex_exec (header_text None) = None
   \<and> io_use None = Reject (JObj [(''message'', JStr
           (''The voice server does not support your version of PenguinChat.'' @ [CHR 0x0A] @
            ''Supported versions: 1.0.0''))])"
proof -
  have m: "regex_exec (header_text (Some ''PenguinChat/2.0.0 (win32)'')) = Some (''2.0.0'', ''win32'')"
    by (simp add: model_defs)
  have v: "''2.0.0'' \<notin> set supportedVersions" by (simp add: supportedVersions_def)
  have h1: "(\<forall>v p. \<not> ua_matches (header_text (Some ''PenguinChat/2.0.0 (win32)'')) v p)
         \<or> (\<exists>v p. ua_matches (header_text (Some ''PenguinChat/2.0.0 (win32)'')) v p
               \<and> v \<notin> set supportedVersions)"
    using m v regex_exec_iff by blast
  have n: "regex_exec (header_text None) = None" by (simp add: model_defs)
  have h2: "(\<forall>v p. \<not> ua_matches (header_text None) v p)
         \<or> (\<exists>v p. ua_matches (header_text None) v p \<and> v \<notin> set supportedVersions)"
    using n regex_exec_iff [of "header_text None", symmetric] by simp
  show ?thesis
    using m v n version_gate_rejects [OF h1] version_gate_rejects [OF h2] by simp
qed

text \<open>
  The claim as stated fails: the payload a rejected handshake receives has no field
  supportedVersions.
\<close>

theorem version_gate_counterexample:
  "regex_exec (header_text (Some ''Mozilla/5.0'')) = None
   \<and> io_use (Some ''Mozilla/5.0'') = Reject error_data
   \<and> get_prop error_data ''supportedVersions'' = Inr JUndefined"
  by (simp add: model_defs)

text \<open>
  C8 (amended). A join that is accepted leaves the registry as it was. The identify event
  is the only one that stores an entry: a step that puts a value into the registry is an
  identify of that connection with that value, and every other change of an entry is a
  deletion caused by an event of the connection itself (its leave or its disconnection).
  So a connection that never identified has no registry entry, whatever it joined with,
  and the spoofing check of a later join does not see it: the join is accepted exactly
  when no other member of the room is registered with the id it carries.
\<close>

theorem join_never_registers:
  assumes "run es init = Inr st" and "sid \<in> connected st" and "\<forall>x. Id m x \<notin> set es"
  shows "clients st m = None
       \<and> (\<exists>st'. step (Join sid (JStr h) (JStr sv) (JStr r) (JNum i)) st = Inr st'
             \<and> (sid \<in> connected st'
                  \<longleftrightarrow> \<not> (\<exists>s\<in>set (rooms st (getRoomId h sv r)) - {m}.
                          \<exists>c. clients st s = Some c \<and> clientId c = i))
             \<and> (sid \<in> connected st' \<longrightarrow> clients st' = clients st))
       \<and> (\<forall>e s s' k v. step e s = Inr s' \<and> clients s' k = Some v \<and> clients s k \<noteq> Some v
             \<longrightarrow> e = Id k (JNum (clientId v)))
       \<and> (\<forall>e s s' k. step e s = Inr s' \<and> clients s' k \<noteq> clients s k
             \<longrightarrow> sender e = k \<and> (clients s' k = None \<or> (\<exists>n. e = Id k (JNum n))))"
proof -
  have none: "clients st m = None"
    using assms(1,3) never_identified_no_entry [of es init st m] by (simp add: init_def)
  have s: "step (Join sid (JStr h) (JStr sv) (JStr r) (JNum i)) st = Inr (join_body sid h sv r i st)"
    using assms(2) by (simp add: on_join_def)
  have iff: "sid \<in> connected (join_body sid h sv r i st)
             \<longleftrightarrow> \<not> (\<exists>s\<in>set (rooms st (getRoomId h sv r)) - {m}.
                     \<exists>c. clients st s = Some c \<and> clientId c = i)"
    using join_body_connected_iff [OF assms(2), of h sv r i] none by auto
  have frame: "sid \<in> connected (join_body sid h sv r i st)
               \<longrightarrow> clients (join_body sid h sv r i st) = clients st"
    using join_body_cases [of sid h sv r i st] assms(2)
    by (auto simp add: connected_socket_disconnect)
  have w: "\<forall>e s s' k v. step e s = Inr s' \<and> clients s' k = Some v \<and> clients s k \<noteq> Some v
             \<longrightarrow> e = Id k (JNum (clientId v))"
    using only_id_writes by blast
  have d: "\<forall>e s s' k. step e s = Inr s' \<and> clients s' k \<noteq> clients s k
             \<longrightarrow> sender e = k \<and> (clients s' k = None \<or> (\<exists>n. e = Id k (JNum n)))"
  proof (intro allI impI)
    fix e s s' k
    assume a: "step e s = Inr s' \<and> clients s' k \<noteq> clients s k"
    then have 1: "sender e = k" using clients_step_other [of e s s' k] by blast
    have 2: "clients s' k = None \<or> (\<exists>n. e = Id k (JNum n))"
    proof (cases "clients s' k")
      case None
      then show ?thesis by simp
    next
      case (Some v)
      with a have "clients s k \<noteq> Some v" by auto
      with a Some only_id_writes [of e s s' k v] show ?thesis by blast
    qed
    from 1 2 show "sender e = k \<and> (clients s' k = None \<or> (\<exists>n. e = Id k (JNum n)))" ..
  qed
  from none s iff frame w d show ?thesis by simp
qed

theorem join_never_registers_witness:
  "run member_5_and_guest init = Inr (state_after member_5_and_guest)
   \<and> ''C'' \<in> connected (state_after member_5_and_guest)
   \<and> rooms (state_after member_5_and_guest) (getRoomId ''host1'' ''srv1'' ''room1'') = [''A'', ''B'']
   \<and> clients (state_after member_5_and_guest) ''A'' = Some \<lparr>clientId = 5\<rparr>
   \<and> clients (state_after member_5_and_guest) ''B'' = None
   \<and> (\<exists>st'. step (join_room1 ''C'' 6) (state_after member_5_and_guest) = Inr st'
         \<and> ''C'' \<in> connected st'
         \<and> clients st' = clients (state_after member_5_and_guest))"
proof -
  let ?st = "state_after member_5_and_guest"
  have h1: "run member_5_and_guest init = Inr ?st"
    by (simp add: member_5_and_guest_def model_defs)
  have h2: "''C'' \<in> connected ?st"
    by (simp add: member_5_and_guest_def model_defs)
  have h3: "\<forall>x. Id ''B'' x \<notin> set member_5_and_guest"
    by (simp add: member_5_and_guest_def join_room1_def)
  have m: "rooms ?st (getRoomId ''host1'' ''srv1'' ''room1'') = [''A'', ''B'']"
    by (simp add: member_5_and_guest_def model_defs)
  have a: "clients ?st ''A'' = Some \<lparr>clientId = 5\<rparr>"
    by (simp add: member_5_and_guest_def model_defs)
  have others: "\<not> (\<exists>s\<in>set (rooms ?st (getRoomId ''host1'' ''srv1'' ''room1'')) - {''B''}.
                    \<exists>c. clients ?st s = Some c \<and> clientId c = 6)"
    unfolding m using a by auto
  from join_never_registers [OF h1 h2 h3, of "''host1''" "''srv1''" "''room1''" 6]
  have b: "clients ?st ''B'' = None"
    and j: "\<exists>st'. step (join_room1 ''C'' 6) ?st = Inr st'
         \<and> (''C'' \<in> connected st'
              \<longleftrightarrow> \<not> (\<exists>s\<in>set (rooms ?st (getRoomId ''host1'' ''srv1'' ''room1'')) - {''B''}.
                      \<exists>c. clients ?st s = Some c \<and> clientId c = 6))
         \<and> (''C'' \<in> connected st' \<longrightarrow> clients st' = clients ?st)"
    unfolding join_room1_def by blast+
  from j others have "\<exists>st'. step (join_room1 ''C'' 6) ?st = Inr st'
         \<and> ''C'' \<in> connected st' \<and> clients st' = clients ?st"
    by blast
  with h1 h2 m a b show ?thesis by simp
qed

text \<open>
  The claim as stated fails: identify is not the only event that changes the registry.
  A is registered with the clientId 5; its leave, and likewise its disconnection, deletes
  the entry.
\<close>

theorem registry_delete_counterexample:
  "run (joined_identified_5 @ [Leave ''A'']) init
     = Inr (state_after (joined_identified_5 @ [Leave ''A'']))
   \<and> run (joined_identified_5 @ [Disconnect ''A'']) init
     = Inr (state_after (joined_identified_5 @ [Disconnect ''A'']))
   \<and> clients (state_after joined_identified_5) ''A'' = Some \<lparr>clientId = 5\<rparr>
   \<and> clients (state_after (joined_identified_5 @ [Leave ''A''])) ''A'' = None
   \<and> clients (state_after (joined_identified_5 @ [Disconnect ''A''])) ''A'' = None
   \<and> clients (state_after (joined_identified_5 @ [Leave ''A'']))
       \<noteq> clients (state_after joined_identified_5)"
proof -
  have 1: "run (joined_identified_5 @ [Leave ''A'']) init
             = Inr (state_after (joined_identified_5 @ [Leave ''A'']))"
    and 2: "run (joined_identified_5 @ [Disconnect ''A'']) init
             = Inr (state_after (joined_identified_5 @ [Disconnect ''A'']))"
    and 3: "clients (state_after joined_identified_5) ''A'' = Some \<lparr>clientId = 5\<rparr>"
    and 4: "clients (state_after (joined_identified_5 @ [Leave ''A''])) ''A'' = None"
    and 5: "clients (state_after (joined_identified_5 @ [Disconnect ''A''])) ''A'' = None"
    by (simp_all add: joined_identified_5_def model_defs)
  from 3 4 have "clients (state_after (joined_identified_5 @ [Leave ''A'']))
       \<noteq> clients (state_after joined_identified_5)"
    by (metis option.distinct(1))
  with 1 2 3 4 5 show ?thesis by blast
qed

text \<open>
  C9. The loop of the join handler does not skip the joining connection: a connection
  that is a member of a room and registered with the clientId c, and that joins this room
  again with the id c, is terminated, and nothing is emitted.
\<close>

theorem rejoin_own_id_terminates:
  assumes "sid \<in> connected st"
    and "sid \<in> set (rooms st (getRoomId h sv r))" and "clients st sid = Some \<lparr>clientId = c\<rparr>"
  shows "\<exists>st'. step (Join sid (JStr h) (JStr sv) (JStr r) (JNum c)) st = Inr st'
       \<and> sid \<notin> connected st' \<and> outbox st' = outbox st"
  using assms by (simp add: on_join_def join_body_spoof [where s = sid] socket_disconnect_live)

theorem rejoin_own_id_terminates_witness:
  "''A'' \<in> connected (state_after joined_identified_5)
   \<and> ''A'' \<in> set (rooms (state_after joined_identified_5) (getRoomId ''host1'' ''srv1'' ''room1''))
   \<and> clients (state_after joined_identified_5) ''A'' = Some \<lparr>clientId = 5\<rparr>
   \<and> (\<exists>st'. step (join_room1 ''A'' 5) (state_after joined_identified_5) = Inr st'
         \<and> ''A'' \<notin> connected st' \<and> outbox st' = outbox (state_after joined_identified_5))"
proof -
  have h1: "''A'' \<in> connected (state_after joined_identified_5)"
    by (simp add: joined_identified_5_def model_defs)
  have h2: "''A'' \<in> set (rooms (state_after joined_identified_5) (getRoomId ''host1'' ''srv1'' ''room1''))"
    by (simp add: joined_identified_5_def model_defs)
  have h3: "clients (state_after joined_identified_5) ''A'' = Some \<lparr>clientId = 5\<rparr>"
    by (simp add: joined_identified_5_def model_defs)
  show ?thesis
    using h1 h2 h3 rejoin_own_id_terminates [OF h1 h2 h3]
    by (simp add: join_room1_def)
qed

text \<open>
  C10. The signal handler tests the data field for truthiness: a signal whose payload is
  an object with a falsy data (the empty string, 0, false and null are falsy) terminates
  the sender and relays nothing, whatever its field to is, a string included.
\<close>

theorem signal_falsy_data_terminates:
  assumes "sid \<in> connected st"
    and "map_of fs ''data'' = Some d" and "\<not> truthy d"
  shows "step (Signal sid (JObj fs)) st = Inr (socket_disconnect sid st)
       \<and> sid \<notin> connected (socket_disconnect sid st)
       \<and> outbox (socket_disconnect sid st) = outbox st
       \<and> \<not> truthy (JStr []) \<and> \<not> truthy (JNum 0) \<and> \<not> truthy (JBool False) \<and> \<not> truthy JNull"
  using assms by (simp add: on_signal_def socket_disconnect_live)

theorem signal_falsy_data_terminates_witness:
  "''A'' \<in> connected (state_after two_members_and_guest)
   \<and> map_of [(''data'', JStr []), (''to'', JStr ''B'')] ''data'' = Some (JStr [])
   \<and> \<not> truthy (JStr [])
   \<and> step (Signal ''A'' (JObj [(''data'', JStr []), (''to'', JStr ''B'')])) (state_after two_members_and_guest)
       = Inr (socket_disconnect ''A'' (state_after two_members_and_guest))
   \<and> ''A'' \<notin> connected (socket_disconnect ''A'' (state_after two_members_and_guest))
   \<and> outbox (socket_disconnect ''A'' (state_after two_members_and_guest)) = outbox (state_after two_members_and_guest)"
proof -
  have h1: "''A'' \<in> connected (state_after two_members_and_guest)"
    by (simp add: two_members_and_guest_def model_defs)
  have h2: "map_of [(''data'', JStr []), (''to'', JStr ''B'')] ''data'' = Some (JStr [])"
    by simp
  have h3: "\<not> truthy (JStr [])" by simp
  show ?thesis
    using h1 h2 h3 signal_falsy_data_terminates [OF h1 h2 h3] by blast
qed

end
